theory Spec2Isabelle
  imports Main "HOL-Library.Word"
begin

unbundle bit_operations_syntax

section \<open>Machine types\<close>

text \<open>
  The service is built for 64-bit targets, where Go's \<open>uint\<close> is 64 bits wide.
  Byte slices are lists of 8-bit words.
\<close>

type_synonym byte = "8 word"
type_synonym uint32 = "32 word"
type_synonym uint = "64 word"

text \<open>
  Failures of the modelled functions. A runtime panic is kept apart from the
  errors a function returns to its caller.
\<close>

datatype error =
    PanicSliceBounds
  | ErrWritePeerID
  | ErrReadPeerID
  | ErrNoMultihashes
  | ErrRecordNotFound
  | ErrDatabase
  | ErrUniqueConstraint
  | ErrEngine

section \<open>Context identifiers\<close>

text \<open>
  \<open>binary.BigEndian.PutUint32\<close> and \<open>binary.BigEndian.Uint32\<close> of Go's standard
  library: the most significant byte comes first.
\<close>

definition PutUint32 :: "uint32 \<Rightarrow> byte list" where
  "PutUint32 v =
     [ucast (drop_bit 24 v), ucast (drop_bit 16 v), ucast (drop_bit 8 v), ucast v]"

definition Uint32 :: "byte list \<Rightarrow> uint32" where
  "Uint32 b =
     ucast (b ! 3) OR push_bit 8 (ucast (b ! 2)) OR push_bit 16 (ucast (b ! 1))
       OR push_bit 24 (ucast (b ! 0))"

record 'p contextParams =
  provider :: 'p
  firstContentID :: uint
  count :: uint

text \<open>
  \<open>makeContextID\<close>: eight bytes holding \<open>uint32(firstContentID)\<close> and
  \<open>uint32(count)\<close>, followed by the peer identity's binary form. The peer
  library is not part of the repository: \<open>MarshalBinary\<close> is a parameter, \<open>None\<close>
  standing for its error.
\<close>

definition makeContextID ::
  "('p \<Rightarrow> byte list option) \<Rightarrow> 'p contextParams \<Rightarrow> error + byte list" where
  "makeContextID MarshalBinary params =
     (let contextID = PutUint32 (ucast (firstContentID params))
                        @ PutUint32 (ucast (count params))
      in case MarshalBinary (provider params) of
           None \<Rightarrow> Inl ErrWritePeerID
         | Some peerIDBytes \<Rightarrow> Inr (contextID @ peerIDBytes))"

text \<open>
  \<open>readContextID\<close>: the slice expression \<open>contextID[8:]\<close> is evaluated first and
  panics when the slice holds fewer than eight bytes; \<open>peer.IDFromBytes\<close> is a
  parameter like \<open>MarshalBinary\<close>.
\<close>

definition readContextID ::
  "(byte list \<Rightarrow> 'p option) \<Rightarrow> byte list \<Rightarrow> error + 'p contextParams" where
  "readContextID IDFromBytes contextID =
     (if length contextID < 8 then Inl PanicSliceBounds
      else case IDFromBytes (drop 8 contextID) of
             None \<Rightarrow> Inl ErrReadPeerID
           | Some peerID \<Rightarrow>
               Inr \<lparr>provider = peerID,
                    firstContentID = ucast (Uint32 (take 4 contextID)),
                    count = ucast (Uint32 (take 4 (drop 4 contextID)))\<rparr>)"

section \<open>The database and the engine\<close>

text \<open>
  The world the provider works in: the tables of the database it reads and
  writes, the calls it has made to the indexing engine, and the outcomes of the
  operations it has yet to perform on either. \<open>fails w n\<close> says whether the
  \<open>n\<close>-th external operation of the run fails (a lost connection, an engine
  error); \<open>ops w\<close> counts the operations performed so far.
\<close>

record Autoretrieve =
  Handle :: string
  Token :: string
  LastConnection :: int
  LastAdvertisement :: int
  PubKey :: string
  Addresses :: string

text \<open>
  A row of \<open>published_batches\<close>. \<open>Model_ID\<close> is the primary key of the embedded
  \<open>gorm.Model\<close>; the \<open>unique\<close> tag of the struct is on \<open>FirstContentID\<close>.
\<close>

record PublishedBatch =
  Model_ID :: uint
  FirstContentID :: uint
  Count :: uint
  AutoretrieveHandle :: string

text \<open>The columns of \<open>objects\<close> and \<open>obj_refs\<close> that the iterator's query names.\<close>

record objects_row =
  objects_id :: uint
  objects_cid :: string

record obj_refs_row =
  obj_refs_object :: uint
  obj_refs_content :: uint

record 'p AddrInfo =
  ID :: 'p
  Addrs :: "string list"

text \<open>
  The calls to the engine. Every \<open>NotifyPut\<close> of the provider carries the same
  metadata, \<open>metadata.New(metadata.Bitswap{})\<close>, which is left out.
\<close>

datatype 'p call =
    NotifyPut "'p AddrInfo" "byte list"
  | NotifyRemove 'p "byte list"

text \<open>
  Of the contents table only the primary keys matter here: \<open>contents\<close> holds the
  IDs of its rows.
\<close>

record 'p world =
  contents :: "uint list"
  autoretrieves :: "Autoretrieve list"
  published_batches :: "PublishedBatch list"
  objects :: "objects_row list"
  obj_refs :: "obj_refs_row list"
  calls :: "'p call list"
  fails :: "nat \<Rightarrow> bool"
  ops :: nat

text \<open>Performing one external operation: its outcome, and the world one step on.\<close>

definition attempt :: "'p world \<Rightarrow> bool \<times> 'p world" where
  "attempt w = (fails w (ops w), w\<lparr>ops := Suc (ops w)\<rparr>)"

section \<open>The multihash iterator\<close>

text \<open>
  The query of \<open>NewIterator\<close>: the \<open>cid\<close> of every object joined with a reference
  whose \<open>content\<close> lies \<open>BETWEEN\<close> the two bounds, both of which SQL includes.
\<close>

definition select_cids :: "'p world \<Rightarrow> uint \<Rightarrow> uint \<Rightarrow> string list" where
  "select_cids w lo hi =
     concat (map (\<lambda>obj.
         map (\<lambda>r. objects_cid obj)
           (filter (\<lambda>r. obj_refs_object r = objects_id obj
                         \<and> lo \<le> obj_refs_content r \<and> obj_refs_content r \<le> hi)
              (obj_refs w)))
       (objects w))"

definition db_Raw_Scan :: "'p world \<Rightarrow> uint \<Rightarrow> uint \<Rightarrow> (error + string list) \<times> 'p world" where
  "db_Raw_Scan w lo hi =
     (case attempt w of
        (True, w') \<Rightarrow> (Inl ErrDatabase, w')
      | (False, w') \<Rightarrow> (Inr (select_cids w' lo hi), w'))"

record 'h Iterator =
  mhs :: "'h list"
  index :: uint
  it_firstContentID :: uint
  it_count :: uint

text \<open>
  Parsing the CID strings: \<open>cid.CidFromBytes\<close> followed by \<open>Hash\<close> is the
  parameter \<open>CidHash\<close>; a string that does not parse is logged and skipped.
\<close>

fun parse_cids :: "(string \<Rightarrow> 'h option) \<Rightarrow> string list \<Rightarrow> 'h list \<Rightarrow> 'h list" where
  "parse_cids CidHash [] hs = hs"
| "parse_cids CidHash (cidString # cidStrings) hs =
     (case CidHash cidString of
        None \<Rightarrow> parse_cids CidHash cidStrings hs
      | Some h \<Rightarrow> parse_cids CidHash cidStrings (hs @ [h]))"

definition NewIterator ::
  "(string \<Rightarrow> 'h option) \<Rightarrow> 'p world \<Rightarrow> uint \<Rightarrow> uint \<Rightarrow> (error + 'h Iterator) \<times> 'p world" where
  "NewIterator CidHash w first cnt =
     (case db_Raw_Scan w first (first + cnt) of
        (Inl e, w') \<Rightarrow> (Inl e, w')
      | (Inr cidStrings, w') \<Rightarrow>
          if length cidStrings = 0 then (Inl ErrNoMultihashes, w')
          else (Inr \<lparr>mhs = parse_cids CidHash cidStrings [], index = 0,
                     it_firstContentID = first, it_count = cnt\<rparr>, w'))"

text \<open>The multihash lister that \<open>NewProvider\<close> registers with the engine.\<close>

definition MultihashLister ::
  "(byte list \<Rightarrow> 'p option) \<Rightarrow> (string \<Rightarrow> 'h option) \<Rightarrow> 'p world \<Rightarrow> byte list
     \<Rightarrow> (error + 'h Iterator) \<times> 'p world" where
  "MultihashLister IDFromBytes CidHash w contextID =
     (case readContextID IDFromBytes contextID of
        Inl e \<Rightarrow> (Inl e, w)
      | Inr params \<Rightarrow> NewIterator CidHash w (firstContentID params) (count params))"

section \<open>The advertisement loop\<close>

record Provider =
  advertisementInterval :: int
  batchSize :: uint

definition NewProvider :: "int \<Rightarrow> Provider" where
  "NewProvider interval = \<lparr>advertisementInterval = interval, batchSize = 25000\<rparr>"

subsection \<open>Database and engine operations\<close>

text \<open>\<open>db.Last\<close> on the contents table: the row with the greatest primary key.\<close>

definition db_Last :: "'p world \<Rightarrow> (error + uint) \<times> 'p world" where
  "db_Last w =
     (case attempt w of
        (True, w') \<Rightarrow> (Inl ErrDatabase, w')
      | (False, w') \<Rightarrow>
          if contents w' = [] then (Inl ErrRecordNotFound, w')
          else (Inr (fold max (contents w') 0), w'))"

definition db_Find_autoretrieves :: "'p world \<Rightarrow> (error + Autoretrieve list) \<times> 'p world" where
  "db_Find_autoretrieves w =
     (case attempt w of
        (True, w') \<Rightarrow> (Inl ErrDatabase, w')
      | (False, w') \<Rightarrow> (Inr (autoretrieves w'), w'))"

definition db_Find_batches ::
  "string \<Rightarrow> uint \<Rightarrow> 'p world \<Rightarrow> (error + PublishedBatch list) \<times> 'p world" where
  "db_Find_batches handle first w =
     (case attempt w of
        (True, w') \<Rightarrow> (Inl ErrDatabase, w')
      | (False, w') \<Rightarrow>
          (Inr (filter (\<lambda>b. AutoretrieveHandle b = handle \<and> FirstContentID b = first)
                  (published_batches w')), w'))"

text \<open>
  \<open>db.Create\<close>: the insert is refused when a row with the same
  \<open>first_content_id\<close> exists, whichever autoretrieve it belongs to; the new row
  gets the next primary key.
\<close>

definition db_Create :: "PublishedBatch \<Rightarrow> 'p world \<Rightarrow> (error + unit) \<times> 'p world" where
  "db_Create row w =
     (case attempt w of
        (True, w') \<Rightarrow> (Inl ErrDatabase, w')
      | (False, w') \<Rightarrow>
          if FirstContentID row \<in> set (map FirstContentID (published_batches w'))
          then (Inl ErrUniqueConstraint, w')
          else (Inr (),
                w'\<lparr>published_batches := published_batches w'
                   @ [row\<lparr>Model_ID := fold max (map Model_ID (published_batches w')) 0 + 1\<rparr>]\<rparr>))"

text \<open>\<open>db.Save\<close> of a row read from the table: an update by primary key.\<close>

definition db_Save :: "PublishedBatch \<Rightarrow> 'p world \<Rightarrow> (error + unit) \<times> 'p world" where
  "db_Save row w =
     (case attempt w of
        (True, w') \<Rightarrow> (Inl ErrDatabase, w')
      | (False, w') \<Rightarrow>
          (Inr (),
           w'\<lparr>published_batches :=
                 map (\<lambda>b. if Model_ID b = Model_ID row then row else b)
                   (published_batches w')\<rparr>))"

text \<open>The engine records each call, whether it succeeds or not.\<close>

definition engine_NotifyPut ::
  "'p AddrInfo \<Rightarrow> byte list \<Rightarrow> 'p world \<Rightarrow> (error + unit) \<times> 'p world" where
  "engine_NotifyPut addrInfo contextID w =
     (case attempt w of
        (failed, w') \<Rightarrow>
          (if failed then Inl ErrEngine else Inr (),
           w'\<lparr>calls := calls w' @ [NotifyPut addrInfo contextID]\<rparr>))"

definition engine_NotifyRemove ::
  "'p \<Rightarrow> byte list \<Rightarrow> 'p world \<Rightarrow> (error + unit) \<times> 'p world" where
  "engine_NotifyRemove peerID contextID w =
     (case attempt w of
        (failed, w') \<Rightarrow>
          (if failed then Inl ErrEngine else Inr (),
           w'\<lparr>calls := calls w' @ [NotifyRemove peerID contextID]\<rparr>))"

text \<open>
  \<open>Autoretrieve.AddrInfo\<close>: the first of the comma-separated addresses, parsed
  by \<open>peer.AddrInfoFromString\<close> (a parameter).
\<close>

definition AddrInfo_of ::
  "(string \<Rightarrow> 'p AddrInfo option) \<Rightarrow> Autoretrieve \<Rightarrow> 'p AddrInfo option" where
  "AddrInfo_of AddrInfoFromString autoretrieve =
     AddrInfoFromString (takeWhile (\<lambda>c. c \<noteq> CHR '','') (Addresses autoretrieve))"

subsection \<open>One batch\<close>

text \<open>
  The number of contents in the batch starting at \<open>first\<close>, for the batch size
  \<open>width\<close>.
\<close>

definition batchCount :: "uint \<Rightarrow> uint \<Rightarrow> uint \<Rightarrow> uint" where
  "batchCount width lastID first =
     (let cnt = width; remaining = lastID - first
      in if remaining < cnt then remaining else cnt)"

text \<open>
  The body of the loop over the batches, after the count has been computed:
  look the batch up, skip it when it is advertised with this count, otherwise
  make the context ID and publish it (after a removal, when a row exists).
\<close>

definition reconcileBatch ::
  "('p \<Rightarrow> byte list option) \<Rightarrow> Provider \<Rightarrow> Autoretrieve \<Rightarrow> 'p AddrInfo \<Rightarrow> uint \<Rightarrow> uint
     \<Rightarrow> 'p world \<Rightarrow> 'p world" where
  "reconcileBatch MarshalBinary p autoretrieve addrInfo first cnt w =
     (case db_Find_batches (Handle autoretrieve) first w of
        (Inl e, w1) \<Rightarrow> w1
      | (Inr publishedBatches, w1) \<Rightarrow>
          if length publishedBatches \<noteq> 0 \<and> Count (hd publishedBatches) = cnt then w1
          else
            (case makeContextID MarshalBinary
                    \<lparr>provider = ID addrInfo, firstContentID = first, count = batchSize p\<rparr> of
               Inl e \<Rightarrow> w1
             | Inr contextID \<Rightarrow>
                 if length publishedBatches = 0 then
                   (case engine_NotifyPut addrInfo contextID w1 of
                      (Inl e, w2) \<Rightarrow> w2
                    | (Inr adCid, w2) \<Rightarrow>
                        snd (db_Create
                               \<lparr>Model_ID = 0, FirstContentID = first, Count = cnt,
                                AutoretrieveHandle = Handle autoretrieve\<rparr> w2))
                 else
                   (let publishedBatch = hd publishedBatches
                    in if Count publishedBatch \<noteq> cnt then
                         (case engine_NotifyRemove (ID addrInfo) contextID w1 of
                            (oldAdCid, w2) \<Rightarrow>
                              (case engine_NotifyPut addrInfo contextID w2 of
                                 (Inl e, w3) \<Rightarrow> w3
                               | (Inr adCid, w3) \<Rightarrow>
                                   snd (db_Save (publishedBatch\<lparr>Count := cnt\<rparr>) w3)))
                       else w1)))"

subsection \<open>Iterating over batches and autoretrieves\<close>

text \<open>
  The loop over the batches:
  \<open>for firstContentID := uint(0); firstContentID <= lastContent.ID; firstContentID += provider.batchSize\<close>,
  with \<open>width\<close> for \<open>provider.batchSize\<close>. The addition wraps around, so the
  loop need not end; \<open>None\<close> is a loop that does not.
\<close>

partial_function (option) forEachBatch ::
  "(uint \<Rightarrow> uint \<Rightarrow> 's \<Rightarrow> 's) \<Rightarrow> uint \<Rightarrow> uint \<Rightarrow> uint \<Rightarrow> 's \<Rightarrow> 's option" where
  "forEachBatch body width lastID first s =
     (if first \<le> lastID
      then forEachBatch body width lastID (first + width)
             (body first (batchCount width lastID first) s)
      else Some s)"

text \<open>The batches the loop visits, in order: each with its first content ID and its count.\<close>

definition plan :: "uint \<Rightarrow> uint \<Rightarrow> (uint \<times> uint) list option" where
  "plan width lastID = forEachBatch (\<lambda>first cnt ws. ws @ [(first, cnt)]) width lastID 0 []"

text \<open>The loop over the registered autoretrieves, at the time \<open>now\<close>.\<close>

fun forEachAutoretrieve ::
  "(string \<Rightarrow> 'p AddrInfo option) \<Rightarrow> ('p \<Rightarrow> byte list option) \<Rightarrow> Provider \<Rightarrow> int \<Rightarrow> uint
     \<Rightarrow> Autoretrieve list \<Rightarrow> 'p world \<Rightarrow> 'p world option" where
  "forEachAutoretrieve AddrInfoFromString MarshalBinary p now lastID [] w = Some w"
| "forEachAutoretrieve AddrInfoFromString MarshalBinary p now lastID (autoretrieve # rest) w =
     (if now - LastConnection autoretrieve > advertisementInterval p
      then forEachAutoretrieve AddrInfoFromString MarshalBinary p now lastID rest w
      else
        (case AddrInfo_of AddrInfoFromString autoretrieve of
           None \<Rightarrow> forEachAutoretrieve AddrInfoFromString MarshalBinary p now lastID rest w
         | Some addrInfo \<Rightarrow>
             (case forEachBatch (reconcileBatch MarshalBinary p autoretrieve addrInfo)
                     (batchSize p) lastID 0 w of
                None \<Rightarrow> None
              | Some w' \<Rightarrow>
                  forEachAutoretrieve AddrInfoFromString MarshalBinary p now lastID rest w')))"

text \<open>One tick of \<open>Provider.Run\<close>.\<close>

definition tick ::
  "(string \<Rightarrow> 'p AddrInfo option) \<Rightarrow> ('p \<Rightarrow> byte list option) \<Rightarrow> Provider \<Rightarrow> int
     \<Rightarrow> 'p world \<Rightarrow> 'p world option" where
  "tick AddrInfoFromString MarshalBinary p now w =
     (case db_Last w of
        (Inl e, w1) \<Rightarrow> Some w1
      | (Inr lastID, w1) \<Rightarrow>
          (case db_Find_autoretrieves w1 of
             (Inl e, w2) \<Rightarrow> Some w2
           | (Inr ars, w2) \<Rightarrow>
               forEachAutoretrieve AddrInfoFromString MarshalBinary p now lastID ars w2))"

text \<open>
  \<open>Provider.Run\<close>, once the engine has started, until it is cancelled: one tick
  at each of the given times.
\<close>

fun Run ::
  "(string \<Rightarrow> 'p AddrInfo option) \<Rightarrow> ('p \<Rightarrow> byte list option) \<Rightarrow> Provider \<Rightarrow> int list
     \<Rightarrow> 'p world \<Rightarrow> 'p world option" where
  "Run AddrInfoFromString MarshalBinary p [] w = Some w"
| "Run AddrInfoFromString MarshalBinary p (now # later) w =
     (case tick AddrInfoFromString MarshalBinary p now w of
        None \<Rightarrow> None
      | Some w' \<Rightarrow> Run AddrInfoFromString MarshalBinary p later w')"

subsection \<open>Advertised batches\<close>

text \<open>
  The test the loop makes on a batch it has looked up: a row is found for the
  handle and the first content ID, and the first such row has this count.
\<close>

definition advertised :: "PublishedBatch list \<Rightarrow> string \<Rightarrow> uint \<Rightarrow> uint \<Rightarrow> bool" where
  "advertised ledger handle first cnt =
     (case filter (\<lambda>b. AutoretrieveHandle b = handle \<and> FirstContentID b = first) ledger of
        [] \<Rightarrow> False
      | row # rows \<Rightarrow> Count row = cnt)"

section \<open>Examples\<close>

text \<open>
  Two objects, referenced by the contents 10 and 20, and a hash extraction that
  rejects the CID string of the second.
\<close>

definition example_catalog :: "byte list world" where
  "example_catalog =
     \<lparr>contents = [10, 20], autoretrieves = [], published_batches = [],
      objects = [\<lparr>objects_id = 11, objects_cid = ''a''\<rparr>,
                 \<lparr>objects_id = 12, objects_cid = ''b''\<rparr>],
      obj_refs = [\<lparr>obj_refs_object = 11, obj_refs_content = 10\<rparr>,
                  \<lparr>obj_refs_object = 12, obj_refs_content = 20\<rparr>],
      calls = [], fails = (\<lambda>n. False), ops = 0\<rparr>"

definition example_CidHash :: "string \<Rightarrow> string option" where
  "example_CidHash s = (if s = ''b'' then None else Some s)"

text \<open>
  Three autoretrieves, of which \<open>C\<close> connected too long ago to be online at the
  time 100 with an interval of 60, and an address parser that knows the
  addresses of two peers.
\<close>

definition example_AddrInfoFromString :: "string \<Rightarrow> byte list AddrInfo option" where
  "example_AddrInfoFromString s =
     (if s = ''/ip4/10.0.0.1/p2p/A'' then Some \<lparr>ID = [18, 1], Addrs = [''/ip4/10.0.0.1'']\<rparr>
      else if s = ''/ip4/10.0.0.2/p2p/B'' then Some \<lparr>ID = [18, 2], Addrs = [''/ip4/10.0.0.2'']\<rparr>
      else None)"

definition example_node_A :: Autoretrieve where
  "example_node_A =
     \<lparr>Handle = ''A'', Token = ''token-A'', LastConnection = 90, LastAdvertisement = 0,
      PubKey = ''key-A'', Addresses = ''/ip4/10.0.0.1/p2p/A,/ip4/10.0.0.3/p2p/A''\<rparr>"

definition example_node_B :: Autoretrieve where
  "example_node_B =
     \<lparr>Handle = ''B'', Token = ''token-B'', LastConnection = 95, LastAdvertisement = 0,
      PubKey = ''key-B'', Addresses = ''/ip4/10.0.0.2/p2p/B''\<rparr>"

definition example_two_nodes :: "byte list world" where
  "example_two_nodes =
     \<lparr>contents = [3, 7], autoretrieves = [example_node_A, example_node_B],
      published_batches = [], objects = [], obj_refs = [],
      calls = [], fails = (\<lambda>n. False), ops = 0\<rparr>"

definition example_node_C :: Autoretrieve where
  "example_node_C =
     \<lparr>Handle = ''C'', Token = ''token-C'', LastConnection = 10, LastAdvertisement = 0,
      PubKey = ''key-C'', Addresses = ''/ip4/10.0.0.2/p2p/B''\<rparr>"

definition example_ledger :: "uint \<Rightarrow> PublishedBatch list" where
  "example_ledger cnt =
     [\<lparr>Model_ID = 1, FirstContentID = 0, Count = 25000, AutoretrieveHandle = ''A''\<rparr>,
      \<lparr>Model_ID = 2, FirstContentID = 25000, Count = 25000, AutoretrieveHandle = ''A''\<rparr>,
      \<lparr>Model_ID = 3, FirstContentID = 50000, Count = cnt, AutoretrieveHandle = ''A''\<rparr>]"

definition example_advertised :: "uint \<Rightarrow> (nat \<Rightarrow> bool) \<Rightarrow> byte list world" where
  "example_advertised highest failing =
     \<lparr>contents = [3, highest], autoretrieves = [example_node_A, example_node_C],
      published_batches = example_ledger 10000, objects = [], obj_refs = [],
      calls = [], fails = failing, ops = 0\<rparr>"

section \<open>Properties of the context identifier\<close>

lemma length_PutUint32: "length (PutUint32 v) = 4"
  by (simp add: PutUint32_def)

lemma Uint32_PutUint32: "Uint32 (PutUint32 v) = v"
  unfolding Uint32_def PutUint32_def
proof (rule bit_word_eqI)
  fix n :: nat
  assume "n < LENGTH(32)"
  then have "n < 32" by simp
  then consider "n < 8" | "8 \<le> n" "n < 16" | "16 \<le> n" "n < 24" | "24 \<le> n" "n < 32"
    by linarith
  then show "bit (ucast ([ucast (drop_bit 24 v), ucast (drop_bit 16 v),
                          ucast (drop_bit 8 v), ucast v :: byte] ! 3)
      OR push_bit 8 (ucast ([ucast (drop_bit 24 v), ucast (drop_bit 16 v),
                             ucast (drop_bit 8 v), ucast v :: byte] ! 2))
      OR push_bit 16 (ucast ([ucast (drop_bit 24 v), ucast (drop_bit 16 v),
                              ucast (drop_bit 8 v), ucast v :: byte] ! 1))
      OR push_bit 24 (ucast ([ucast (drop_bit 24 v), ucast (drop_bit 16 v),
                              ucast (drop_bit 8 v), ucast v :: byte] ! 0)) :: uint32) n
    = bit v n"
    by cases (auto simp add: bit_simps)
qed

text \<open>Converting a \<open>uint\<close> to \<open>uint32\<close> and back keeps its low 32 bits.\<close>

lemma uint32_uint: "(ucast (ucast (x :: uint) :: uint32) :: uint) = take_bit 32 x"
  by (rule bit_word_eqI) (auto simp add: bit_simps)

lemma take_bit_32_small: "unat (x :: uint) < 2 ^ 32 \<Longrightarrow> take_bit 32 x = x"
  by (metis take_bit_nat_eq_self_iff unsigned_take_bit_eq word_eq_iff_unsigned)

lemma unat_take_bit_32: "unat (take_bit 32 (x :: uint)) = unat x mod 2 ^ 32"
  by (metis take_bit_eq_mod unsigned_take_bit_eq)

lemma ucast_take_bit_32: "(ucast (take_bit 32 (x :: uint)) :: uint32) = ucast x"
  by (rule bit_word_eqI) (auto simp add: bit_simps)

lemma ucast_cong_mod:
  assumes "unat (x :: uint) mod 2 ^ 32 = unat (y :: uint) mod 2 ^ 32"
  shows "(ucast x :: uint32) = ucast y"
proof -
  have "take_bit 32 x = take_bit 32 y"
    using assms by (simp only: word_unat_eq_iff unat_take_bit_32)
  then have "(ucast (take_bit 32 x) :: uint32) = ucast (take_bit 32 y)"
    by simp
  then show ?thesis
    by (simp only: ucast_take_bit_32)
qed

text \<open>What reading a freshly made context ID gives, whatever the two numbers are.\<close>

lemma readContextID_makeContextID:
  assumes "MarshalBinary (provider params) = Some bs"
    and "IDFromBytes bs = Some (provider params)"
  shows "makeContextID MarshalBinary params
           = Inr (PutUint32 (ucast (firstContentID params))
                    @ PutUint32 (ucast (count params)) @ bs)"
    and "readContextID IDFromBytes
           (PutUint32 (ucast (firstContentID params))
              @ PutUint32 (ucast (count params)) @ bs)
           = Inr \<lparr>provider = provider params,
                  firstContentID = take_bit 32 (firstContentID params),
                  count = take_bit 32 (count params)\<rparr>"
  using assms
  by (simp_all add: makeContextID_def readContextID_def length_PutUint32
      Uint32_PutUint32 uint32_uint)

text \<open>
  Claim C1, as amended. Reading the context ID made from a peer identity, a first
  content ID and a count returns the three of them whenever the peer identity's
  binary form parses back to it and both numbers are below \<open>2 ^ 32\<close>.
\<close>

theorem readContextID_inverts_makeContextID:
  assumes "MarshalBinary (provider params) = Some bs"
    and "IDFromBytes bs = Some (provider params)"
    and "unat (firstContentID params) < 2 ^ 32"
    and "unat (count params) < 2 ^ 32"
  shows "\<exists>contextID. makeContextID MarshalBinary params = Inr contextID
           \<and> readContextID IDFromBytes contextID = Inr params"
  using readContextID_makeContextID [of MarshalBinary params bs IDFromBytes] assms
  by (simp add: take_bit_32_small)

theorem readContextID_inverts_makeContextID_witness:
  "unat (50000 :: uint) < 2 ^ 32 \<and> unat (25000 :: uint) < 2 ^ 32
   \<and> (\<exists>contextID.
         makeContextID Some \<lparr>provider = [18, 1 :: byte], firstContentID = 50000, count = 25000\<rparr>
           = Inr contextID
         \<and> readContextID Some contextID
           = Inr \<lparr>provider = [18, 1 :: byte], firstContentID = 50000, count = 25000\<rparr>)"
proof -
  have h: "unat (50000 :: uint) < 2 ^ 32" "unat (25000 :: uint) < 2 ^ 32"
    by simp_all
  have "\<exists>contextID.
         makeContextID Some \<lparr>provider = [18, 1 :: byte], firstContentID = 50000, count = 25000\<rparr>
           = Inr contextID
         \<and> readContextID Some contextID
           = Inr \<lparr>provider = [18, 1 :: byte], firstContentID = 50000, count = 25000\<rparr>"
    by (rule readContextID_inverts_makeContextID [where bs = "[18, 1]"]) simp_all
  with h show ?thesis by (intro conjI)
qed

text \<open>
  Claim C1, as stated, fails for a first content ID of \<open>2 ^ 32\<close>: the context ID
  holds its low 32 bits only, and reading it back gives 0.
\<close>

theorem readContextID_makeContextID_counterexample:
  "makeContextID Some \<lparr>provider = [18, 1 :: byte], firstContentID = 4294967296, count = 7\<rparr>
     = Inr [0, 0, 0, 0, 0, 0, 0, 7, 18, 1]
   \<and> readContextID Some [0, 0, 0, 0, 0, 0, 0, 7, 18, 1 :: byte]
     = Inr \<lparr>provider = [18, 1 :: byte], firstContentID = 0, count = 7\<rparr>
   \<and> readContextID Some [0, 0, 0, 0, 0, 0, 0, 7, 18, 1 :: byte]
     \<noteq> Inr \<lparr>provider = [18, 1 :: byte], firstContentID = 4294967296, count = 7\<rparr>"
  by (simp add: makeContextID_def readContextID_def PutUint32_def Uint32_def)

text \<open>
  Claim C2 asks for an error result on every input shorter than eight bytes.
  The code slices \<open>contextID[8:]\<close> without looking at the length, so on every
  such input it panics instead of returning an error.
\<close>

theorem readContextID_short_panics:
  "length contextID < 8 \<Longrightarrow> readContextID IDFromBytes contextID = Inl PanicSliceBounds"
  by (simp add: readContextID_def)

theorem readContextID_short_panics_witness:
  "length [0, 0, 0, 1, 0, 0, 0 :: byte] < 8
   \<and> readContextID (Some :: byte list \<Rightarrow> byte list option) [0, 0, 0, 1, 0, 0, 0]
     = Inl PanicSliceBounds"
proof -
  have h: "length [0, 0, 0, 1, 0, 0, 0 :: byte] < 8"
    by simp
  from h readContextID_short_panics [OF h] show ?thesis
    by (intro conjI)
qed

text \<open>
  Claim C10. The context ID holds the first content ID and the count modulo
  \<open>2 ^ 32\<close>: two first content IDs, or two counts, that agree modulo \<open>2 ^ 32\<close> give
  the same bytes, and reading the context ID back gives both numbers modulo
  \<open>2 ^ 32\<close>.
\<close>

theorem makeContextID_modulo:
  "(unat first mod 2 ^ 32 = unat first' mod 2 ^ 32
      \<and> unat cnt mod 2 ^ 32 = unat cnt' mod 2 ^ 32
    \<longrightarrow> makeContextID MarshalBinary \<lparr>provider = peerID, firstContentID = first, count = cnt\<rparr>
        = makeContextID MarshalBinary
            \<lparr>provider = peerID, firstContentID = first', count = cnt'\<rparr>)
   \<and> (MarshalBinary peerID = Some bs \<and> IDFromBytes bs = Some peerID
    \<longrightarrow> (\<exists>contextID.
          makeContextID MarshalBinary
            \<lparr>provider = peerID, firstContentID = first, count = cnt\<rparr> = Inr contextID
          \<and> readContextID IDFromBytes contextID
            = Inr \<lparr>provider = peerID,
                   firstContentID = of_nat (unat first mod 2 ^ 32),
                   count = of_nat (unat cnt mod 2 ^ 32)\<rparr>))"
proof (intro conjI impI)
  assume "unat first mod 2 ^ 32 = unat first' mod 2 ^ 32
            \<and> unat cnt mod 2 ^ 32 = unat cnt' mod 2 ^ 32"
  then have "(ucast first :: uint32) = ucast first'" "(ucast cnt :: uint32) = ucast cnt'"
    by (blast intro: ucast_cong_mod)+
  then show "makeContextID MarshalBinary
               \<lparr>provider = peerID, firstContentID = first, count = cnt\<rparr>
             = makeContextID MarshalBinary
                 \<lparr>provider = peerID, firstContentID = first', count = cnt'\<rparr>"
    by (simp add: makeContextID_def)
next
  assume a: "MarshalBinary peerID = Some bs \<and> IDFromBytes bs = Some peerID"
  have m: "of_nat (unat x mod 2 ^ 32) = take_bit 32 x" for x :: uint
    by (simp only: word_unat_eq_iff unat_take_bit_32 unat_of_nat) simp
  show "\<exists>contextID.
          makeContextID MarshalBinary
            \<lparr>provider = peerID, firstContentID = first, count = cnt\<rparr> = Inr contextID
          \<and> readContextID IDFromBytes contextID
            = Inr \<lparr>provider = peerID,
                   firstContentID = of_nat (unat first mod 2 ^ 32),
                   count = of_nat (unat cnt mod 2 ^ 32)\<rparr>"
    using readContextID_makeContextID
      [of MarshalBinary "\<lparr>provider = peerID, firstContentID = first, count = cnt\<rparr>"
          bs IDFromBytes] a
    unfolding m by simp
qed

theorem makeContextID_modulo_witness:
  "makeContextID Some \<lparr>provider = [18, 1 :: byte], firstContentID = 4294967301, count = 25000\<rparr>
     = makeContextID Some \<lparr>provider = [18, 1 :: byte], firstContentID = 5, count = 8589959592\<rparr>
   \<and> (\<exists>contextID.
         makeContextID Some
           \<lparr>provider = [18, 1 :: byte], firstContentID = 4294967301, count = 25000\<rparr>
           = Inr contextID
         \<and> readContextID Some contextID
           = Inr \<lparr>provider = [18, 1 :: byte], firstContentID = 5, count = 25000\<rparr>)"
proof -
  note t = makeContextID_modulo
    [of 4294967301 5 25000 8589959592 Some "[18, 1 :: byte]" "[18, 1]" Some]
  have h1: "unat (4294967301 :: uint) mod 2 ^ 32 = unat (5 :: uint) mod 2 ^ 32
          \<and> unat (25000 :: uint) mod 2 ^ 32 = unat (8589959592 :: uint) mod 2 ^ 32"
    by simp
  have h2: "Some [18, 1 :: byte] = Some [18, 1] \<and> Some [18, 1 :: byte] = Some [18, 1]"
    by simp
  have c: "(of_nat (unat (4294967301 :: uint) mod 2 ^ 32) :: uint) = 5"
    "(of_nat (unat (25000 :: uint) mod 2 ^ 32) :: uint) = 25000"
    by simp_all
  have a: "makeContextID Some
             \<lparr>provider = [18, 1 :: byte], firstContentID = 4294967301, count = 25000\<rparr>
           = makeContextID Some
               \<lparr>provider = [18, 1 :: byte], firstContentID = 5, count = 8589959592\<rparr>"
    by (rule t [THEN conjunct1, THEN mp, OF h1])
  have b: "\<exists>contextID.
         makeContextID Some
           \<lparr>provider = [18, 1 :: byte], firstContentID = 4294967301, count = 25000\<rparr>
           = Inr contextID
         \<and> readContextID Some contextID
           = Inr \<lparr>provider = [18, 1 :: byte], firstContentID = 5, count = 25000\<rparr>"
    using t [THEN conjunct2, THEN mp, OF h2] unfolding c .
  from a b show ?thesis
    by (intro conjI)
qed

section \<open>Properties of the multihash iterator\<close>

lemma parse_cids_map_filter:
  "parse_cids CidHash cidStrings hs = hs @ List.map_filter CidHash cidStrings"
  by (induction cidStrings arbitrary: hs) (simp_all add: List.map_filter_simps split: option.split)

lemma NewIterator_cases:
  "fst (NewIterator CidHash w first cnt) =
     (if fails w (ops w) then Inl ErrDatabase
      else if select_cids w first (first + cnt) = [] then Inl ErrNoMultihashes
      else Inr \<lparr>mhs = List.map_filter CidHash (select_cids w first (first + cnt)), index = 0,
                it_firstContentID = first, it_count = cnt\<rparr>)"
  by (simp add: NewIterator_def db_Raw_Scan_def attempt_def select_cids_def
      parse_cids_map_filter)

text \<open>
  Claim C4 has the iterator for the window \<open>(first, count)\<close> resolve the content
  IDs from \<open>first\<close> up to, but not including, \<open>first + count\<close>. The query's
  \<open>BETWEEN\<close> includes its upper bound: for the window (10, 10) of the example
  catalog the hash of content 20 is returned along with that of content 10.
\<close>

theorem NewIterator_includes_upper_bound:
  "fst (NewIterator Some example_catalog 10 10)
     = Inr \<lparr>mhs = [''a'', ''b''], index = 0, it_firstContentID = 10, it_count = 10\<rparr>"
  by (simp add: NewIterator_cases example_catalog_def select_cids_def List.map_filter_simps)

text \<open>
  Claim C9, as amended. \<open>NewIterator\<close> fails when its query returns no CID
  string (or fails itself). When it succeeds, the query returned at least one,
  and the iterator holds, in the order of the query, the hashes of those
  returned CID strings that parse; the others are skipped.
\<close>

theorem NewIterator_result:
  "(select_cids w first (first + cnt) = []
      \<longrightarrow> fst (NewIterator CidHash w first cnt)
          = Inl (if fails w (ops w) then ErrDatabase else ErrNoMultihashes))
   \<and> (fst (NewIterator CidHash w first cnt) = Inr it
      \<longrightarrow> select_cids w first (first + cnt) \<noteq> []
          \<and> it = \<lparr>mhs = List.map_filter CidHash (select_cids w first (first + cnt)),
                   index = 0, it_firstContentID = first, it_count = cnt\<rparr>)"
  by (auto simp add: NewIterator_cases split: if_splits)

theorem NewIterator_result_witness:
  "fst (NewIterator example_CidHash example_catalog 30 5) = Inl ErrNoMultihashes
   \<and> select_cids example_catalog 10 (10 + 15) \<noteq> []
   \<and> \<lparr>mhs = [''a''], index = 0, it_firstContentID = 10, it_count = 15\<rparr>
     = \<lparr>mhs = List.map_filter example_CidHash (select_cids example_catalog 10 (10 + 15)),
        index = 0, it_firstContentID = 10, it_count = 15\<rparr>"
proof -
  have a: "select_cids example_catalog 30 (30 + 5) = []"
    by (simp add: example_catalog_def select_cids_def)
  have f: "(if fails example_catalog (ops example_catalog) then ErrDatabase else ErrNoMultihashes)
             = ErrNoMultihashes"
    by (simp add: example_catalog_def)
  have b: "fst (NewIterator example_CidHash example_catalog 10 15)
             = Inr \<lparr>mhs = [''a''], index = 0, it_firstContentID = 10, it_count = 15\<rparr>"
    by (simp add: NewIterator_cases example_catalog_def select_cids_def
        List.map_filter_simps example_CidHash_def)
  from NewIterator_result
         [where w = example_catalog and first = 30 and cnt = 5 and CidHash = example_CidHash,
          THEN conjunct1, THEN mp, OF a, unfolded f]
       NewIterator_result
         [where w = example_catalog and first = 10 and cnt = 15 and CidHash = example_CidHash,
          THEN conjunct2, THEN mp, OF b]
  show ?thesis
    by (intro conjI) (erule conjE, assumption)+
qed

text \<open>
  Claim C9, as stated, fails where a CID string does not parse: for the window
  (20, 5) the construction succeeds with an iterator over no hash at all, and
  for the window (10, 15) with an iterator over one hash of the two rows
  matched.
\<close>

theorem NewIterator_partial_counterexample:
  "select_cids example_catalog 20 (20 + 5) = [''b'']
   \<and> fst (NewIterator example_CidHash example_catalog 20 5)
     = Inr \<lparr>mhs = [], index = 0, it_firstContentID = 20, it_count = 5\<rparr>
   \<and> select_cids example_catalog 10 (10 + 15) = [''a'', ''b'']
   \<and> fst (NewIterator example_CidHash example_catalog 10 15)
     = Inr \<lparr>mhs = [''a''], index = 0, it_firstContentID = 10, it_count = 15\<rparr>"
  by (simp add: NewIterator_cases example_catalog_def select_cids_def
      List.map_filter_simps example_CidHash_def)

section \<open>Properties of the batch loop\<close>

lemma batchCount_min: "batchCount width lastID first = min (width) (lastID - first)"
  by (auto simp add: batchCount_def Let_def min_def)

lemma unat_of_nat_small: "n < 2 ^ 64 \<Longrightarrow> unat (of_nat n :: uint) = n"
  by (simp add: unat_of_nat)

lemma forEachBatch_from:
  fixes width lastID :: uint
  defines "b \<equiv> unat width"
  defines "n \<equiv> unat lastID div b + 1"
  assumes pos: "0 < b" and nowrap: "unat lastID + b < 2 ^ 64" and j: "j \<le> n"
  shows "forEachBatch body width lastID (of_nat (j * b)) s
           = Some (foldl (\<lambda>s k. body (of_nat (k * b)) (batchCount width lastID (of_nat (k * b))) s)
                     s [j..<n])"
  using j
proof (induction "n - j" arbitrary: j s)
  case 0
  then have jn: "j = n" by simp
  have gt: "unat lastID < n * b"
    unfolding n_def using pos by (simp add: dividend_less_div_times)
  have le: "n * b \<le> unat lastID + b"
    unfolding n_def by (simp add: add_mult_distrib)
  have "unat (of_nat (n * b) :: uint) = n * b"
    using le nowrap by (intro unat_of_nat_small) simp
  then have "\<not> (of_nat (n * b) :: uint) \<le> lastID"
    using gt by (simp add: word_le_nat_alt)
  then show ?case
    unfolding jn by (subst forEachBatch.simps) simp
next
  case (Suc m)
  then have jn: "j < n" and m: "m = n - Suc j" by simp_all
  have "j * b \<le> (unat lastID div b) * b"
    using jn unfolding n_def by simp
  also have "\<dots> \<le> unat lastID" by simp
  finally have jb: "j * b \<le> unat lastID" .
  then have "unat (of_nat (j * b) :: uint) = j * b"
    using nowrap by (intro unat_of_nat_small) simp
  then have le: "(of_nat (j * b) :: uint) \<le> lastID"
    using jb by (simp add: word_le_nat_alt)
  have step: "(of_nat (j * b) :: uint) + width = of_nat (Suc j * b)"
    unfolding b_def by (simp add: add.commute)
  have "forEachBatch body width lastID (of_nat (j * b)) s
          = forEachBatch body width lastID (of_nat (Suc j * b))
              (body (of_nat (j * b)) (batchCount width lastID (of_nat (j * b))) s)"
    by (subst forEachBatch.simps) (simp only: le step if_True)
  also have "\<dots> = Some (foldl (\<lambda>s k. body (of_nat (k * b)) (batchCount width lastID (of_nat (k * b))) s)
                     (body (of_nat (j * b)) (batchCount width lastID (of_nat (j * b))) s) [Suc j..<n])"
    using Suc.hyps(1) [OF m] jn by simp
  finally show ?case
    using jn by (simp add: upt_conv_Cons)
qed

lemma foldl_snoc_map: "foldl (\<lambda>ws k. ws @ [g k]) acc ks = acc @ map g ks"
  by (induction ks arbitrary: acc) simp_all

lemma plan_closed_form:
  assumes "0 < width" and "unat lastID + unat width < 2 ^ 64"
  shows "plan width lastID
           = Some (map (\<lambda>k. (of_nat k * width,
                              min (width) (lastID - of_nat k * width)))
                     [0..<unat lastID div unat width + 1])"
proof -
  have pos: "0 < unat width"
    using assms(1) by (simp add: word_less_nat_alt)
  have eq: "(of_nat (k * unat width) :: uint) = of_nat k * width" for k
    by simp
  show ?thesis
    unfolding plan_def
    using forEachBatch_from [OF pos assms(2), of 0 "\<lambda>first cnt ws. ws @ [(first, cnt)]" "[]"]
    by (simp add: foldl_snoc_map batchCount_min)
qed

lemma plan_covers:
  fixes width lastID c :: uint
  assumes pos: "0 < width" and c: "c \<le> lastID"
  shows "\<exists>k < unat lastID div unat width + 1.
           of_nat k * width \<le> c \<and> c - of_nat k * width < width"
proof -
  define b where "b = unat width"
  define k where "k = unat c div b"
  have b: "0 < b"
    using pos by (simp add: b_def word_less_nat_alt)
  have "k * b \<le> unat c"
    by (simp add: k_def)
  moreover have "unat c < 2 ^ 64"
    using unsigned_less [of c] by simp
  ultimately have "unat (of_nat (k * b) :: uint) = k * b"
    by (intro unat_of_nat_small) simp
  then have kb: "unat (of_nat k * width) = k * b"
    by (simp add: b_def)
  have le: "of_nat k * width \<le> c"
    unfolding word_le_nat_alt kb by (simp add: k_def)
  have "unat (c - of_nat k * width) = unat c - k * b"
    using le by (simp add: unat_sub kb)
  also have "\<dots> = unat c mod b"
    by (simp add: k_def minus_div_mult_eq_mod)
  also have "\<dots> < b"
    using b by simp
  finally have lt: "c - of_nat k * width < width"
    by (simp add: word_less_nat_alt b_def)
  have "unat c \<le> unat lastID"
    using c by (simp add: word_le_nat_alt)
  then have "k < unat lastID div unat width + 1"
    by (simp add: k_def b_def div_le_mono less_Suc_eq_le)
  with le lt show ?thesis
    by blast
qed

text \<open>
  Claim C5. The batches of a tick are determined by the highest content ID and
  the batch size alone. With a batch size of 25000 and a highest content ID of
  60000 they are (0, 25000), (25000, 25000) and (50000, 10000). In general, for
  a positive batch size and a highest content ID that leaves room for one more
  batch below \<open>2 ^ 64\<close>, the loop ends; its batches start at the multiples
  \<open>0, width, 2 * width, ...\<close> of the batch size up to the highest content ID, in
  this order, each with the count \<open>min width (highest - first)\<close>; and every
  content ID up to the highest lies less than one batch size above the start of
  one of them.
\<close>

theorem plan_batches:
  "plan 25000 60000 = Some [(0, 25000), (25000, 25000), (50000, 10000)]
   \<and> (0 < width \<and> unat lastID + unat width < 2 ^ 64
      \<longrightarrow> plan width lastID
            = Some (map (\<lambda>k. (of_nat k * width,
                               min (width) (lastID - of_nat k * width)))
                      [0..<unat lastID div unat width + 1])
          \<and> (\<forall>c. c \<le> lastID
                \<longrightarrow> (\<exists>k < unat lastID div unat width + 1.
                       of_nat k * width \<le> c
                       \<and> c - of_nat k * width < width)))"
proof (intro conjI impI allI)
  show "plan 25000 60000 = Some [(0, 25000), (25000, 25000), (50000, 10000)]"
    by (simp add: plan_def forEachBatch.simps batchCount_def)
next
  assume "0 < width \<and> unat lastID + unat width < 2 ^ 64"
  then show "plan width lastID
            = Some (map (\<lambda>k. (of_nat k * width,
                               min (width) (lastID - of_nat k * width)))
                      [0..<unat lastID div unat width + 1])"
    by (simp add: plan_closed_form)
next
  fix c
  assume a: "0 < width \<and> unat lastID + unat width < 2 ^ 64"
    and c: "c \<le> lastID"
  show "\<exists>k < unat lastID div unat width + 1.
                of_nat k * width \<le> c \<and> c - of_nat k * width < width"
    by (rule plan_covers [OF conjunct1 [OF a] c])
qed

theorem plan_batches_witness:
  "0 < (25000 :: uint) \<and> unat (80000 :: uint) + unat (25000 :: uint) < 2 ^ 64
   \<and> plan 25000 80000
     = Some [(0, 25000), (25000, 25000), (50000, 25000), (75000, 5000)]
   \<and> (\<exists>k < unat (80000 :: uint) div unat (25000 :: uint) + 1.
         of_nat k * 25000 \<le> (60000 :: uint) \<and> 60000 - of_nat k * 25000 < (25000 :: uint))"
proof -
  have h: "0 < (25000 :: uint) \<and> unat (80000 :: uint) + unat (25000 :: uint) < 2 ^ 64"
    by simp
  note t = plan_batches [where width = 25000 and lastID = 80000,
      THEN conjunct2, THEN mp, OF h]
  have n: "[0..<unat (80000 :: uint) div unat (25000 :: uint) + 1] = [0, 1, 2, 3]"
    by (simp add: upt_rec)
  have "plan 25000 80000
          = Some [(0, 25000), (25000, 25000), (50000, 25000), (75000, 5000)]"
    using t [THEN conjunct1] unfolding n by simp
  moreover have "\<exists>k < unat (80000 :: uint) div unat (25000 :: uint) + 1.
         of_nat k * 25000 \<le> (60000 :: uint) \<and> 60000 - of_nat k * 25000 < (25000 :: uint)"
    using t [THEN conjunct2, THEN spec, of 60000] by simp
  ultimately show ?thesis
    using h by (intro conjI) simp_all
qed

section \<open>Properties of one batch\<close>

lemmas reconcile_defs =
  reconcileBatch_def db_Find_batches_def db_Create_def db_Save_def engine_NotifyPut_def
  engine_NotifyRemove_def attempt_def makeContextID_def

lemmas run_defs =
  tick_def db_Last_def db_Find_autoretrieves_def AddrInfo_of_def batchCount_def
  reconcile_defs PutUint32_def

lemma filter_map_update_hd:
  assumes "filter P xs = r # rs" and "P r'"
  shows "\<exists>rs'. filter P (map (\<lambda>b. if Model_ID b = Model_ID r then r' else b) xs) = r' # rs'"
  using assms
proof (induction xs)
  case Nil
  then show ?case by simp
next
  case (Cons x xs)
  then show ?case
    by (cases "P x") auto
qed

text \<open>
  Claim C6. When the lookup finds a row for the batch whose count differs from
  the planned one (and the context ID can be made), the loop calls
  \<open>NotifyRemove\<close> and then \<open>NotifyPut\<close> with the same context ID, whether or not
  the removal fails. If \<open>NotifyPut\<close> fails, the table is left as it was. If it
  succeeds, and the write to the database does, the row found is saved with the
  planned count, and it is the row the next lookup finds.
\<close>

theorem reconcileBatch_republish:
  assumes lookup: "\<not> fails w (ops w)"
    and found: "filter (\<lambda>b. AutoretrieveHandle b = Handle autoretrieve \<and> FirstContentID b = first)
                  (published_batches w) = row # rows"
    and differs: "Count row \<noteq> cnt"
    and peer: "MarshalBinary (ID addrInfo) = Some bs"
  shows "calls (reconcileBatch MarshalBinary p autoretrieve addrInfo first cnt w)
           = calls w
             @ [NotifyRemove (ID addrInfo)
                  (PutUint32 (ucast first) @ PutUint32 (ucast (batchSize p)) @ bs),
                NotifyPut addrInfo
                  (PutUint32 (ucast first) @ PutUint32 (ucast (batchSize p)) @ bs)]
         \<and> (fails w (ops w + 2)
            \<longrightarrow> published_batches (reconcileBatch MarshalBinary p autoretrieve addrInfo first cnt w)
                = published_batches w)
         \<and> (\<not> fails w (ops w + 2) \<and> \<not> fails w (ops w + 3)
            \<longrightarrow> published_batches (reconcileBatch MarshalBinary p autoretrieve addrInfo first cnt w)
                = map (\<lambda>b. if Model_ID b = Model_ID row then row\<lparr>Count := cnt\<rparr> else b)
                    (published_batches w)
              \<and> (\<exists>rows'. filter (\<lambda>b. AutoretrieveHandle b = Handle autoretrieve
                                        \<and> FirstContentID b = first)
                    (published_batches
                       (reconcileBatch MarshalBinary p autoretrieve addrInfo first cnt w))
                  = row\<lparr>Count := cnt\<rparr> # rows'))"
proof -
  have row: "AutoretrieveHandle row = Handle autoretrieve \<and> FirstContentID row = first"
    using found by (metis (mono_tags, lifting) filter_eq_ConsD)
  have calls: "calls (reconcileBatch MarshalBinary p autoretrieve addrInfo first cnt w)
           = calls w
             @ [NotifyRemove (ID addrInfo)
                  (PutUint32 (ucast first) @ PutUint32 (ucast (batchSize p)) @ bs),
                NotifyPut addrInfo
                  (PutUint32 (ucast first) @ PutUint32 (ucast (batchSize p)) @ bs)]"
    using lookup found differs peer
    by (simp add: reconcile_defs Let_def split: prod.split sum.split bool.split)
  have failed: "published_batches (reconcileBatch MarshalBinary p autoretrieve addrInfo first cnt w)
                = published_batches w" if "fails w (ops w + 2)"
    using lookup found differs peer that
    by (simp add: reconcile_defs Let_def split: prod.split sum.split bool.split)
  have saved: "published_batches (reconcileBatch MarshalBinary p autoretrieve addrInfo first cnt w)
                = map (\<lambda>b. if Model_ID b = Model_ID row then row\<lparr>Count := cnt\<rparr> else b)
                    (published_batches w)" if "\<not> fails w (ops w + 2)" "\<not> fails w (ops w + 3)"
    using lookup found differs peer that
    by (simp add: reconcile_defs Let_def numeral_2_eq_2 numeral_3_eq_3 split: prod.split sum.split bool.split)
  show ?thesis
    using calls failed saved filter_map_update_hd [OF found, of "row\<lparr>Count := cnt\<rparr>"] row
    by simp
qed

theorem reconcileBatch_republish_witness:
  "calls (reconcileBatch Some (NewProvider 60) example_node_A
            \<lparr>ID = [18, 1], Addrs = [''/ip4/10.0.0.1'']\<rparr> 50000 25000
            (example_advertised 80000 (\<lambda>n. n = 1)))
     = [NotifyRemove [18, 1] [0, 0, 195, 80, 0, 0, 97, 168, 18, 1],
        NotifyPut \<lparr>ID = [18, 1], Addrs = [''/ip4/10.0.0.1'']\<rparr>
          [0, 0, 195, 80, 0, 0, 97, 168, 18, 1]]
   \<and> published_batches (reconcileBatch Some (NewProvider 60) example_node_A
            \<lparr>ID = [18, 1], Addrs = [''/ip4/10.0.0.1'']\<rparr> 50000 25000
            (example_advertised 80000 (\<lambda>n. n = 1)))
     = example_ledger 25000
   \<and> published_batches (reconcileBatch Some (NewProvider 60) example_node_A
            \<lparr>ID = [18, 1], Addrs = [''/ip4/10.0.0.1'']\<rparr> 50000 25000
            (example_advertised 80000 (\<lambda>n. n = 2)))
     = example_ledger 10000"
proof -
  let ?row = "\<lparr>Model_ID = 3, FirstContentID = 50000, Count = 10000, AutoretrieveHandle = ''A''\<rparr>"
  let ?ai = "\<lparr>ID = [18, 1 :: byte], Addrs = [''/ip4/10.0.0.1'']\<rparr>"
  have found: "filter (\<lambda>b. AutoretrieveHandle b = Handle example_node_A \<and> FirstContentID b = 50000)
                 (published_batches (example_advertised 80000 failing)) = ?row # []" for failing
    by (simp add: example_node_A_def example_ledger_def example_advertised_def
        NewProvider_def)
  have differs: "Count ?row \<noteq> 25000"
    by simp
  have peer: "Some (ID ?ai) = Some [18, 1]"
    by simp
  have ok: "\<not> fails (example_advertised 80000 (\<lambda>n. n = k)) (ops (example_advertised 80000 (\<lambda>n. n = k)))"
    if "k \<noteq> 0" for k
    using that by (simp add: example_node_A_def example_ledger_def example_advertised_def
        NewProvider_def)
  note retract_fails = reconcileBatch_republish
    [where w = "example_advertised 80000 (\<lambda>n. n = 1)" and p = "NewProvider 60"
       and MarshalBinary = Some,
     OF ok found differs peer, simplified]
  note publish_fails = reconcileBatch_republish
    [where w = "example_advertised 80000 (\<lambda>n. n = 2)" and p = "NewProvider 60"
       and MarshalBinary = Some,
     OF ok found differs peer, simplified]
  show ?thesis
    using retract_fails publish_fails
    by (simp add: example_node_A_def example_ledger_def example_advertised_def
        NewProvider_def PutUint32_def)
qed

text \<open>
  Claim C8. Every call the loop makes for a batch carries the context ID made
  from the peer identity, the first content ID of the batch and the configured
  batch size: its bytes 4 to 7 are the batch size, big-endian. The count of the
  batch does not occur in it, so a batch that was published while it was
  partial is published again under the same context ID.
\<close>

theorem reconcileBatch_contextID:
  "calls (reconcileBatch MarshalBinary p autoretrieve addrInfo first cnt w) = calls w
   \<or> (\<exists>bs. MarshalBinary (ID addrInfo) = Some bs
         \<and> (calls (reconcileBatch MarshalBinary p autoretrieve addrInfo first cnt w)
              = calls w @ [NotifyPut addrInfo
                   (PutUint32 (ucast first) @ PutUint32 (ucast (batchSize p)) @ bs)]
            \<or> calls (reconcileBatch MarshalBinary p autoretrieve addrInfo first cnt w)
              = calls w @ [NotifyRemove (ID addrInfo)
                   (PutUint32 (ucast first) @ PutUint32 (ucast (batchSize p)) @ bs),
                 NotifyPut addrInfo
                   (PutUint32 (ucast first) @ PutUint32 (ucast (batchSize p)) @ bs)]))"
  by (auto simp add: reconcile_defs Let_def split: prod.split sum.split bool.split option.split)

theorem reconcileBatch_contextID_witness:
  "calls (reconcileBatch Some (NewProvider 60) example_node_A
            \<lparr>ID = [18, 1], Addrs = [''/ip4/10.0.0.1'']\<rparr> 50000 10000
            ((example_advertised 60000 (\<lambda>n. False))\<lparr>published_batches := []\<rparr>))
     = [NotifyPut \<lparr>ID = [18, 1], Addrs = [''/ip4/10.0.0.1'']\<rparr>
          (PutUint32 50000 @ PutUint32 25000 @ [18, 1])]
   \<and> calls (reconcileBatch Some (NewProvider 60) example_node_A
            \<lparr>ID = [18, 1], Addrs = [''/ip4/10.0.0.1'']\<rparr> 50000 25000
            (example_advertised 80000 (\<lambda>n. False)))
     = [NotifyRemove [18, 1] (PutUint32 50000 @ PutUint32 25000 @ [18, 1]),
        NotifyPut \<lparr>ID = [18, 1], Addrs = [''/ip4/10.0.0.1'']\<rparr>
          (PutUint32 50000 @ PutUint32 25000 @ [18, 1])]
   \<and> PutUint32 50000 @ PutUint32 25000 @ [18, 1] = [0, 0, 195, 80, 0, 0, 97, 168, 18, 1]"
proof -
  let ?ai = "\<lparr>ID = [18, 1 :: byte], Addrs = [''/ip4/10.0.0.1'']\<rparr>"
  let ?new = "(example_advertised 60000 (\<lambda>n. False))\<lparr>published_batches := []\<rparr>"
  let ?grown = "example_advertised 80000 (\<lambda>n. False)"
  have new: "calls (reconcileBatch Some (NewProvider 60) example_node_A ?ai 50000 10000 ?new)
               \<noteq> calls ?new"
    "length (calls (reconcileBatch Some (NewProvider 60) example_node_A ?ai 50000 10000 ?new)) = 1"
    by (simp_all add: example_node_A_def example_ledger_def example_advertised_def
        NewProvider_def reconcile_defs)
  have grown: "length (calls (reconcileBatch Some (NewProvider 60) example_node_A ?ai 50000 25000 ?grown)) = 2"
    by (simp add: example_node_A_def example_ledger_def example_advertised_def
        NewProvider_def reconcile_defs)
  have empty: "calls ?new = []" "calls ?grown = []"
    by (simp_all add: example_node_A_def example_ledger_def example_advertised_def
        NewProvider_def)
  have a: "calls (reconcileBatch Some (NewProvider 60) example_node_A ?ai 50000 10000 ?new)
          = [NotifyPut ?ai (PutUint32 50000 @ PutUint32 25000 @ [18, 1])]"
    using reconcileBatch_contextID [of Some "NewProvider 60" example_node_A ?ai 50000 10000 ?new]
      new
    unfolding empty by (auto simp add: NewProvider_def)
  have b: "calls (reconcileBatch Some (NewProvider 60) example_node_A ?ai 50000 25000 ?grown)
          = [NotifyRemove [18, 1] (PutUint32 50000 @ PutUint32 25000 @ [18, 1]),
             NotifyPut ?ai (PutUint32 50000 @ PutUint32 25000 @ [18, 1])]"
    using reconcileBatch_contextID [of Some "NewProvider 60" example_node_A ?ai 50000 25000 ?grown]
      grown
    unfolding empty by (auto simp add: NewProvider_def)
  have c: "PutUint32 50000 @ PutUint32 25000 @ [18, 1] = [0, 0, 195, 80, 0, 0, 97, 168, 18, 1]"
    by (simp add: PutUint32_def)
  from a b c show ?thesis
    by (intro conjI)
qed

section \<open>Properties of a tick\<close>

lemma reconcileBatch_advertised:
  assumes "advertised (published_batches w) (Handle autoretrieve) first cnt"
  shows "reconcileBatch MarshalBinary p autoretrieve addrInfo first cnt w = w\<lparr>ops := Suc (ops w)\<rparr>"
  using assms
  by (auto simp add: reconcile_defs advertised_def split: list.splits bool.split)

lemma forEachBatch_plan_aux:
  assumes "forEachBatch body width lastID first acc = Some r"
  shows "body = (\<lambda>first cnt ws. ws @ [(first, cnt)])
         \<longrightarrow> (\<exists>ws. r = acc @ ws
               \<and> (\<forall>s. forEachBatch body' width lastID first s
                     = Some (foldl (\<lambda>s (f, c). body' f c s) s ws)))"
  using assms
proof (induction rule: forEachBatch.raw_induct [rotated 1, consumes 1])
  case (1 loop body width lastID first acc r)
  show ?case
  proof (intro impI)
    assume body: "body = (\<lambda>first cnt ws. ws @ [(first, cnt)])"
    show "\<exists>ws. r = acc @ ws
             \<and> (\<forall>s. forEachBatch body' width lastID first s
                   = Some (foldl (\<lambda>s (f, c). body' f c s) s ws))"
    proof (cases "first \<le> lastID")
      case True
      with 1(2) have "loop body width lastID (first + width)
                        (body first (batchCount width lastID first) acc) = Some r"
        by simp
      from 1(1) [OF this] body obtain ws'
        where r: "r = (acc @ [(first, batchCount width lastID first)]) @ ws'"
          and rest: "\<And>s. forEachBatch body' width lastID (first + width) s
                        = Some (foldl (\<lambda>s (f, c). body' f c s) s ws')"
        by auto
      have "forEachBatch body' width lastID first s
              = Some (foldl (\<lambda>s (f, c). body' f c s) s ((first, batchCount width lastID first) # ws'))"
        for s
        using True by (subst forEachBatch.simps) (simp add: rest)
      with r show ?thesis
        by (intro exI [of _ "(first, batchCount width lastID first) # ws'"]) simp
    next
      case False
      with 1(2) have "r = acc" by simp
      moreover have "forEachBatch body' width lastID first s = Some s" for s
        using False by (subst forEachBatch.simps) simp
      ultimately show ?thesis
        by (intro exI [of _ "[]"]) simp
    qed
  qed
qed

lemma forEachBatch_plan:
  assumes "plan width lastID = Some ws"
  shows "forEachBatch body width lastID 0 s = Some (foldl (\<lambda>s (f, c). body f c s) s ws)"
  using forEachBatch_plan_aux [OF assms [unfolded plan_def], where body' = body] by simp

lemma foldl_reconcileBatch_advertised:
  assumes "\<forall>(f, c) \<in> set ws. advertised (published_batches w) (Handle autoretrieve) f c"
  shows "foldl (\<lambda>s (f, c). reconcileBatch MarshalBinary p autoretrieve addrInfo f c s) w ws
           = w\<lparr>ops := ops w + length ws\<rparr>"
  using assms
proof (induction ws arbitrary: w)
  case Nil
  then show ?case by simp
next
  case (Cons fc ws)
  obtain f c where fc: "fc = (f, c)"
    by (cases fc)
  from Cons.prems fc
  have hd: "advertised (published_batches w) (Handle autoretrieve) f c"
    and tl: "\<forall>(f, c) \<in> set ws.
               advertised (published_batches (w\<lparr>ops := Suc (ops w)\<rparr>)) (Handle autoretrieve) f c"
    by simp_all
  show ?case
    using Cons.IH [OF tl]
    by (simp add: fc reconcileBatch_advertised [OF hd])
qed

lemma forEachAutoretrieve_advertised:
  assumes "plan (batchSize p) lastID = Some ws"
    and "\<forall>a \<in> set ars. now - LastConnection a \<le> advertisementInterval p
           \<longrightarrow> (\<forall>(f, c) \<in> set ws. advertised (published_batches w) (Handle a) f c)"
  shows "\<exists>n. forEachAutoretrieve AddrInfoFromString MarshalBinary p now lastID ars w
               = Some (w\<lparr>ops := n\<rparr>)"
  using assms(2)
proof (induction ars arbitrary: w)
  case Nil
  have "w = w\<lparr>ops := ops w\<rparr>" by simp
  then show ?case by (metis forEachAutoretrieve.simps(1))
next
  case (Cons a ars)
  have rest: "\<exists>n. forEachAutoretrieve AddrInfoFromString MarshalBinary p now lastID ars
                      (w\<lparr>ops := k\<rparr>) = Some (w\<lparr>ops := n\<rparr>)" for k
    using Cons.IH [of "w\<lparr>ops := k\<rparr>"] Cons.prems by simp
  show ?case
  proof (cases "now - LastConnection a > advertisementInterval p")
    case True
    then show ?thesis
      using rest [of "ops w"] by simp
  next
    case online: False
    show ?thesis
    proof (cases "AddrInfo_of AddrInfoFromString a")
      case None
      then show ?thesis
        using online rest [of "ops w"] by simp
    next
      case (Some addrInfo)
      from online Cons.prems
      have "\<forall>(f, c) \<in> set ws. advertised (published_batches w) (Handle a) f c"
        by simp
      then have "forEachBatch (reconcileBatch MarshalBinary p a addrInfo) (batchSize p) lastID 0 w
                   = Some (w\<lparr>ops := ops w + length ws\<rparr>)"
        by (simp add: forEachBatch_plan [OF assms(1)] foldl_reconcileBatch_advertised)
      then show ?thesis
        using online Some rest [of "ops w + length ws"] by simp
    qed
  qed
qed

lemma tick_advertised:
  assumes "plan (batchSize p) (fold max (contents w) 0) = Some ws"
    and "\<forall>a \<in> set (autoretrieves w). now - LastConnection a \<le> advertisementInterval p
           \<longrightarrow> (\<forall>(f, c) \<in> set ws. advertised (published_batches w) (Handle a) f c)"
  shows "\<exists>n. tick AddrInfoFromString MarshalBinary p now w = Some (w\<lparr>ops := n\<rparr>)"
proof -
  have loop: "\<exists>n. forEachAutoretrieve AddrInfoFromString MarshalBinary p now
                      (fold max (contents w) 0) (autoretrieves w) (w\<lparr>ops := k\<rparr>)
                    = Some (w\<lparr>ops := n\<rparr>)" for k
    using forEachAutoretrieve_advertised
      [OF assms(1), of "autoretrieves w" now "w\<lparr>ops := k\<rparr>" AddrInfoFromString MarshalBinary]
      assms(2)
    by simp
  show ?thesis
    using loop [of "Suc (Suc (ops w))"]
    by (auto simp add: tick_def db_Last_def db_Find_autoretrieves_def attempt_def
        split: bool.split)
qed

text \<open>
  Claim C7. When the loop over the batches ends and, for every autoretrieve
  that is online, every batch of the plan is advertised with its planned count,
  a tick makes no call to the engine and leaves the table as it is: the world
  after the tick is the world before it but for the count of operations. A
  second tick at the same or a later time does the same.
\<close>

theorem tick_converged:
  assumes "plan (batchSize p) (fold max (contents w) 0) = Some ws"
    and "\<forall>a \<in> set (autoretrieves w). now - LastConnection a \<le> advertisementInterval p
           \<longrightarrow> (\<forall>(f, c) \<in> set ws. advertised (published_batches w) (Handle a) f c)"
  shows "(\<exists>w'. tick AddrInfoFromString MarshalBinary p now w = Some w'
            \<and> calls w' = calls w \<and> published_batches w' = published_batches w
            \<and> w' = w\<lparr>ops := ops w'\<rparr>)
       \<and> (\<forall>later. now \<le> later
            \<longrightarrow> (\<exists>w''. Run AddrInfoFromString MarshalBinary p [now, later] w = Some w''
                  \<and> calls w'' = calls w \<and> published_batches w'' = published_batches w
                  \<and> w'' = w\<lparr>ops := ops w''\<rparr>))"
proof (intro conjI allI impI)
  from tick_advertised [OF assms] obtain n
    where first: "tick AddrInfoFromString MarshalBinary p now w = Some (w\<lparr>ops := n\<rparr>)"
    by blast
  then show "\<exists>w'. tick AddrInfoFromString MarshalBinary p now w = Some w'
            \<and> calls w' = calls w \<and> published_batches w' = published_batches w
            \<and> w' = w\<lparr>ops := ops w'\<rparr>"
    by simp
  fix later :: int
  assume "now \<le> later"
  with assms(2)
  have "\<forall>a \<in> set (autoretrieves (w\<lparr>ops := n\<rparr>)).
          later - LastConnection a \<le> advertisementInterval p
          \<longrightarrow> (\<forall>(f, c) \<in> set ws.
                 advertised (published_batches (w\<lparr>ops := n\<rparr>)) (Handle a) f c)"
    by auto
  moreover have "plan (batchSize p) (fold max (contents (w\<lparr>ops := n\<rparr>)) 0) = Some ws"
    using assms(1) by simp
  ultimately obtain m
    where "tick AddrInfoFromString MarshalBinary p later (w\<lparr>ops := n\<rparr>)
             = Some (w\<lparr>ops := n, ops := m\<rparr>)"
    using tick_advertised [of p "w\<lparr>ops := n\<rparr>" ws later AddrInfoFromString MarshalBinary]
    by blast
  with first
  show "\<exists>w''. Run AddrInfoFromString MarshalBinary p [now, later] w = Some w''
                  \<and> calls w'' = calls w \<and> published_batches w'' = published_batches w
                  \<and> w'' = w\<lparr>ops := ops w''\<rparr>"
    by simp
qed

theorem tick_converged_witness:
  "(\<exists>w'. tick example_AddrInfoFromString Some (NewProvider 60) 100
            (example_advertised 60000 (\<lambda>n. False)) = Some w'
       \<and> calls w' = calls (example_advertised 60000 (\<lambda>n. False))
       \<and> published_batches w' = published_batches (example_advertised 60000 (\<lambda>n. False))
       \<and> w' = (example_advertised 60000 (\<lambda>n. False))\<lparr>ops := ops w'\<rparr>)
   \<and> (\<exists>w''. Run example_AddrInfoFromString Some (NewProvider 60) [100, 160]
            (example_advertised 60000 (\<lambda>n. False)) = Some w''
       \<and> calls w'' = calls (example_advertised 60000 (\<lambda>n. False))
       \<and> published_batches w'' = published_batches (example_advertised 60000 (\<lambda>n. False))
       \<and> w'' = (example_advertised 60000 (\<lambda>n. False))\<lparr>ops := ops w''\<rparr>)"
proof -
  let ?w = "example_advertised 60000 (\<lambda>n. False)"
  have windows: "plan (batchSize (NewProvider 60)) (fold max (contents ?w) 0)
                   = Some [(0, 25000), (25000, 25000), (50000, 10000)]"
    by (simp add: example_node_A_def example_node_C_def example_ledger_def
        example_advertised_def NewProvider_def plan_def forEachBatch.simps batchCount_def)
  have ledger: "\<forall>a \<in> set (autoretrieves ?w).
                  100 - LastConnection a \<le> advertisementInterval (NewProvider 60)
                  \<longrightarrow> (\<forall>(f, c) \<in> set [(0, 25000), (25000, 25000), (50000, 10000)].
                         advertised (published_batches ?w) (Handle a) f c)"
    by (simp add: example_node_A_def example_node_C_def example_ledger_def
        example_advertised_def NewProvider_def advertised_def)
  note t = tick_converged [OF windows ledger, of example_AddrInfoFromString Some]
  have later: "(100 :: int) \<le> 160"
    by simp
  from t [THEN conjunct1] t [THEN conjunct2, THEN spec, THEN mp, OF later]
  show ?thesis
    by (rule conjI)
qed

text \<open>
  Claim C3 has every autoretrieve hold its own row for a first content ID. The
  table's unique key is the first content ID alone: with two autoretrieves
  online and an empty table, the first tick inserts the row of \<open>A\<close> for the
  batch starting at 0, the insert for \<open>B\<close> is refused, and on the next tick \<open>B\<close>
  is published once more and still has no row.
\<close>

theorem second_node_gets_no_row:
  "map_option published_batches
     (Run example_AddrInfoFromString Some (NewProvider 60) [100, 110] example_two_nodes)
     = Some [\<lparr>Model_ID = 1, FirstContentID = 0, Count = 7, AutoretrieveHandle = ''A''\<rparr>]
   \<and> map_option calls
     (Run example_AddrInfoFromString Some (NewProvider 60) [100, 110] example_two_nodes)
     = Some [NotifyPut \<lparr>ID = [18, 1], Addrs = [''/ip4/10.0.0.1'']\<rparr>
               [0, 0, 0, 0, 0, 0, 97, 168, 18, 1],
             NotifyPut \<lparr>ID = [18, 2], Addrs = [''/ip4/10.0.0.2'']\<rparr>
               [0, 0, 0, 0, 0, 0, 97, 168, 18, 2],
             NotifyPut \<lparr>ID = [18, 2], Addrs = [''/ip4/10.0.0.2'']\<rparr>
               [0, 0, 0, 0, 0, 0, 97, 168, 18, 2]]"
  by (simp add: example_AddrInfoFromString_def example_node_A_def example_node_B_def
      example_two_nodes_def NewProvider_def run_defs forEachBatch.simps)

end
